theory Spec2Isabelle
  imports Main "HOL-Library.Log_Nat"
begin

section \<open>The vehicle number identifier: the App component of App.js\<close>

text \<open>
  The component keeps five React state variables (\<open>image\<close>, \<open>message\<close>, \<open>ws\<close>,
  \<open>numberPlate\<close>, \<open>socketStatusColour\<close>) and one ref (\<open>responseTimeoutRef\<close>). Its
  handlers run to completion on the single event loop of the browser, so each handler is
  a function from the state before it to the state after it. What the handlers reach
  outside the component is part of the state as well: the \<open>readyState\<close> of the WebSocket
  object and the frames handed to its \<open>send\<close>, and the table of timeouts of the browser
  with a clock in milliseconds. \<open>console.log\<close> is not modelled.
\<close>

subsection \<open>Data\<close>

text \<open>The four values of \<open>WebSocket.readyState\<close>.\<close>

datatype readyState = CONNECTING | OPEN | CLOSING | CLOSED

text \<open>
  The handle returned by \<open>setTimeout\<close>. A browser returns a positive integer, so a
  handle is always truthy in \<open>if (responseTimeoutRef.current)\<close>; \<open>TimeoutID n\<close> stands
  for the handle \<open>n + 1\<close>.
\<close>

datatype timeoutID = TimeoutID nat

text \<open>The selected \<open>File\<close>: the two properties the component reads.\<close>

record jsfile =
  name :: string
  fsize :: nat

text \<open>
  The object \<open>{"action": ..., "message": {"bucket": ..., "key": ...}}\<close> that
  \<open>sendMessage\<close> serialises with \<open>JSON.stringify\<close> and sends.
\<close>

record payload =
  action :: string
  bucket :: string
  key :: string

text \<open>The WebSocket object: its \<open>readyState\<close> and the frames its \<open>send\<close> was given.\<close>

record webSocket =
  readyState :: readyState
  sent :: "payload list"

text \<open>
  The argument of the \<open>httpUploadProgress\<close> listener; \<open>None\<close> is a property that is
  \<open>undefined\<close>. Byte counts are natural numbers.
\<close>

record progress =
  loaded :: "nat option"
  total :: "nat option"

text \<open>
  What \<open>JSON.parse\<close> returns. A number is kept as the text that a template literal
  renders it to; an object is the list of its properties, each key once.
\<close>

datatype json =
    JNull
  | JBool bool
  | JNumber string
  | JString string
  | JArray "json list"
  | JObject "(string \<times> json) list"

text \<open>
  The state: the \<open>useState\<close> variables and the ref of the component, then the constant
  \<open>bucketName\<close> of the module, then the timeouts of the browser (\<open>timers\<close>: the scheduled
  handles with the time each is due; \<open>nextTimer\<close>: the next handle; \<open>now\<close>: the clock in
  milliseconds; \<open>fired\<close>: the handles whose callback has run, in that order).
\<close>

record app =
  image :: "jsfile option"
  message :: string
  ws :: "webSocket option"
  numberPlate :: string
  socketStatusColour :: string
  responseTimeoutRef :: "timeoutID option"
  bucketName :: string
  timers :: "(timeoutID \<times> nat) list"
  nextTimer :: nat
  now :: nat
  fired :: "timeoutID list"

subsection \<open>Timeouts of the browser\<close>

text \<open>\<open>setTimeout(callback, delay)\<close>: a fresh handle, due \<open>delay\<close> ms from now.\<close>

definition setTimeout :: "nat \<Rightarrow> app \<Rightarrow> timeoutID \<times> app" where
  "setTimeout delay st =
     (let h = TimeoutID (nextTimer st)
      in (h, st\<lparr>timers := timers st @ [(h, now st + delay)],
                nextTimer := Suc (nextTimer st)\<rparr>))"

text \<open>\<open>clearTimeout(h)\<close>: the handle is no longer scheduled.\<close>

definition clearTimeout :: "timeoutID \<Rightarrow> app \<Rightarrow> app" where
  "clearTimeout h st = st\<lparr>timers := filter (\<lambda>e. fst e \<noteq> h) (timers st)\<rparr>"

text \<open>Whether a handle is scheduled.\<close>

definition scheduled :: "timeoutID \<Rightarrow> app \<Rightarrow> bool" where
  "scheduled h st = (h \<in> fst ` set (timers st))"

subsection \<open>The handlers of the WebSocket\<close>

text \<open>\<open>ws.onopen\<close>.\<close>

definition onopen :: "app \<Rightarrow> app" where
  "onopen st = st\<lparr>socketStatusColour := ''green''\<rparr>"

text \<open>\<open>ws.onerror\<close>.\<close>

definition onerror :: "app \<Rightarrow> app" where
  "onerror st = st\<lparr>socketStatusColour := ''red'',
                    message := ''WebSocket error while processing image''\<rparr>"

text \<open>\<open>ws.onclose\<close>.\<close>

definition onclose :: "app \<Rightarrow> app" where
  "onclose st = st\<lparr>socketStatusColour := ''grey''\<rparr>"

subsection \<open>How a template literal renders a value\<close>

text \<open>
  \<open>`${v}`\<close> for \<open>v\<close> a value of \<open>JSON.parse\<close>, \<open>None\<close> where it throws a
  \<open>TypeError\<close>. A string is itself and \<open>null\<close> is \<open>null\<close>. An array is its elements
  joined by commas, with \<open>null\<close> as the empty string. Any other object is converted by
  its \<open>toString\<close>: that of \<open>Object.prototype\<close>, which gives \<open>[object Object]\<close>, unless
  the object has a property \<open>toString\<close> of its own; a value of \<open>JSON.parse\<close> is never a
  function and the inherited \<open>valueOf\<close> returns the object, so the conversion of such an
  object throws.
\<close>

fun join :: "string \<Rightarrow> string list \<Rightarrow> string" where
  "join sep [] = []"
| "join sep [x] = x"
| "join sep (x # y # ys) = x @ sep @ join sep (y # ys)"

fun ToString :: "json \<Rightarrow> string option" where
  "ToString JNull = Some ''null''"
| "ToString (JBool b) = Some (if b then ''true'' else ''false'')"
| "ToString (JNumber s) = Some s"
| "ToString (JString s) = Some s"
| "ToString (JArray xs) =
     map_option (join '','')
       (those (map (\<lambda>x. if x = JNull then Some [] else ToString x) xs))"
| "ToString (JObject kvs) =
     (if ''toString'' \<in> fst ` set kvs then None else Some ''[object Object]'')"

text \<open>\<open>`${v}`\<close> for \<open>v\<close> that may be \<open>undefined\<close> (\<open>None\<close>).\<close>

definition template :: "json option \<Rightarrow> string option" where
  "template v = (case v of None \<Rightarrow> Some ''undefined'' | Some j \<Rightarrow> ToString j)"

text \<open>
  The property access \<open>data.message\<close>: a \<open>TypeError\<close> on \<open>null\<close> (\<open>None\<close>), the value
  of the property of an object, \<open>undefined\<close> (\<open>Some None\<close>) where there is no such
  property.
\<close>

fun get_message :: "json \<Rightarrow> json option option" where
  "get_message JNull = None"
| "get_message (JObject kvs) = Some (map_of kvs ''message'')"
| "get_message j = Some None"

text \<open>The decimal digits of a natural number, and of an integer.\<close>

fun digits :: "nat \<Rightarrow> string" where
  "digits n =
     (if n < 10 then [char_of (48 + n)]
      else digits (n div 10) @ [char_of (48 + n mod 10)])"

definition string_of_int :: "int \<Rightarrow> string" where
  "string_of_int i = (if i < 0 then CHR ''-'' # digits (nat (- i)) else digits (nat i))"

subsection \<open>The numbers of JavaScript\<close>

text \<open>
  A number of JavaScript is a binary64 floating-point number, and \<open>/\<close> and \<open>*\<close> round
  the exact result to the nearest one, ties to the even significand. The numbers are
  modelled as the rationals they denote; the exponent range (overflow, subnormal
  numbers) is not modelled, byte counts and their quotients being far inside it.
\<close>

text \<open>Rounding to the nearest integer, ties to even.\<close>

definition rne :: "rat \<Rightarrow> int" where
  "rne x =
     (let f = \<lfloor>x\<rfloor>; r = x - of_int f
      in if r < 1 / 2 then f
         else if 1 / 2 < r then f + 1
         else if even f then f else f + 1)"

text \<open>For \<open>0 < x\<close>, the exponent \<open>e\<close> with \<open>2 powi e \<le> x < 2 powi (e + 1)\<close>.\<close>

definition binade :: "rat \<Rightarrow> int" where
  "binade x =
     (let k = bitlen (fst (quotient_of x)) - bitlen (snd (quotient_of x))
      in if 2 powi k \<le> x then k else k - 1)"

text \<open>Rounding a rational to 53 significant bits.\<close>

definition double :: "rat \<Rightarrow> rat" where
  "double x =
     (if x = 0 then 0
      else let e = binade \<bar>x\<bar> - 52
           in sgn x * of_int (rne (\<bar>x\<bar> / 2 powi e)) * 2 powi e)"

text \<open>\<open>Math.round\<close>: the nearest integer, ties towards plus infinity.\<close>

definition Math_round :: "rat \<Rightarrow> int" where
  "Math_round x = \<lfloor>x + 1 / 2\<rfloor>"

text \<open>
  The expression \<open>Math.min(100, Math.round((loaded / total) * 100))\<close> of the progress
  listener.
\<close>

definition percent :: "nat \<Rightarrow> nat \<Rightarrow> int" where
  "percent l t =
     min 100 (Math_round (double (double (of_nat l / of_nat t) * 100)))"

subsection \<open>The result frame\<close>

text \<open>
  \<open>ws.onmessage\<close>. \<open>JSON_parse\<close> is \<open>JSON.parse\<close> of the browser, \<open>None\<close> where it
  throws a \<open>SyntaxError\<close>; \<open>data\<close> is \<open>event.data\<close>. The timeout is cleared first; an
  exception of \<open>JSON.parse\<close> or of \<open>data.message\<close> leaves the \<open>try\<close> block for the
  \<open>catch\<close>, which only logs. So does an exception of the template literal, which is
  evaluated after \<open>setMessage("Completed")\<close>.
\<close>

definition onmessage :: "(string \<Rightarrow> json option) \<Rightarrow> string \<Rightarrow> app \<Rightarrow> app" where
  "onmessage JSON_parse data st =
     (let st1 = (case responseTimeoutRef st of
                   None \<Rightarrow> st
                 | Some h \<Rightarrow> (clearTimeout h st)\<lparr>responseTimeoutRef := None\<rparr>)
      in case JSON_parse data of
           None \<Rightarrow> st1
         | Some d \<Rightarrow>
             (case get_message d of
                None \<Rightarrow> st1
              | Some m \<Rightarrow>
                  (let st2 = st1\<lparr>message := ''Completed''\<rparr>
                   in case template m of
                        None \<Rightarrow> st2
                      | Some text \<Rightarrow> st2\<lparr>numberPlate := ''Number plate: '' @ text\<rparr>)))"

subsection \<open>The upload\<close>

text \<open>\<open>x || y\<close> on a number that may be \<open>undefined\<close>: \<open>y\<close> where \<open>x\<close> is falsy.\<close>

definition or_else :: "nat option \<Rightarrow> nat \<Rightarrow> nat" where
  "or_else x y = (case x of None \<Rightarrow> y | Some n \<Rightarrow> if n = 0 then y else n)"

text \<open>\<open>progress?.loaded || 0\<close>; \<open>None\<close> is a \<open>progress\<close> that is \<open>undefined\<close>.\<close>

definition progress_loaded :: "progress option \<Rightarrow> nat" where
  "progress_loaded prog = or_else (case prog of None \<Rightarrow> None | Some p \<Rightarrow> loaded p) 0"

text \<open>\<open>progress?.total || image.size || 0\<close>.\<close>

definition progress_total :: "jsfile \<Rightarrow> progress option \<Rightarrow> nat" where
  "progress_total img prog =
     or_else (case prog of None \<Rightarrow> None | Some p \<Rightarrow> total p) (or_else (Some (fsize img)) 0)"

text \<open>The listener of \<open>httpUploadProgress\<close> for the upload of \<open>img\<close>.\<close>

definition httpUploadProgress :: "jsfile \<Rightarrow> progress option \<Rightarrow> app \<Rightarrow> app" where
  "httpUploadProgress img prog st =
     (let l = progress_loaded prog; t = progress_total img prog
      in if 0 < t
         then st\<lparr>message := ''Uploading... '' @ string_of_int (percent l t) @ ''%''\<rparr>
         else st\<lparr>message := ''Uploading...''\<rparr>)"

text \<open>How the promise of \<open>parallelUploads3.done()\<close> settles.\<close>

datatype settled = Fulfilled | Rejected

text \<open>
  \<open>uploadFileToS3\<close>, for an upload that emits the progress events \<open>events\<close> and then
  settles as \<open>outcome\<close>; the result is the returned boolean with the state. An
  exception of the constructor or a rejection of \<open>done()\<close> reaches the same \<open>catch\<close>
  block. No handler of the WebSocket and no timeout runs in between; what those do is
  stated for every state they may find.
\<close>

definition uploadFileToS3 ::
    "jsfile \<Rightarrow> progress option list \<Rightarrow> settled \<Rightarrow> app \<Rightarrow> bool \<times> app" where
  "uploadFileToS3 img events outcome st =
     (let st1 = st\<lparr>message := ''Uploading... 0%''\<rparr>;
          st2 = fold (httpUploadProgress img) events st1
      in case outcome of
           Fulfilled \<Rightarrow> (True, st2\<lparr>message := ''Upload is done''\<rparr>)
         | Rejected \<Rightarrow> (False, st2\<lparr>message := ''Upload is failed''\<rparr>))"

subsection \<open>The notification\<close>

text \<open>
  \<open>sendMessage\<close>. In \<open>readyState\<close> \<open>OPEN\<close> neither \<open>JSON.stringify\<close> of the payload
  nor \<open>ws.send\<close> of a string throws, so the \<open>catch\<close> block has no branch here. The
  \<open>ws\<close> of the closure is the state variable: it is set once, by the first effect,
  before any file can be selected.
\<close>

definition sendMessage :: "string \<Rightarrow> app \<Rightarrow> app" where
  "sendMessage imageName st =
     (case ws st of
        None \<Rightarrow> st\<lparr>message := ''WebSocket is not connected''\<rparr>
      | Some sock \<Rightarrow>
          if readyState sock \<noteq> OPEN
          then st\<lparr>message := ''WebSocket not ready yet. Please try again in a moment''\<rparr>
          else
            let st1 = st\<lparr>message := ''Sending image '' @ imageName @ '' info....''\<rparr>;
                p = \<lparr>action = ''sendVehicleInfo'', bucket = bucketName st, key = imageName\<rparr>;
                st2 = st1\<lparr>ws := Some (sock\<lparr>sent := sent sock @ [p]\<rparr>)\<rparr>;
                st3 = st2\<lparr>message := ''Processing image....''\<rparr>;
                (h, st4) = setTimeout 15000 st3
            in st4\<lparr>responseTimeoutRef := Some h\<rparr>)"

text \<open>The callback given to \<open>setTimeout\<close> in \<open>sendMessage\<close>.\<close>

definition response_timeout :: "app \<Rightarrow> app" where
  "response_timeout st = st\<lparr>message := ''No response from server yet. Check backend logs.''\<rparr>"

text \<open>
  The clock advances by \<open>ms\<close> milliseconds and nothing else happens: every timeout
  that is due by then leaves the table and its callback runs. Each timeout of this
  component has the callback of \<open>sendMessage\<close>.
\<close>

definition elapse :: "nat \<Rightarrow> app \<Rightarrow> app" where
  "elapse ms st =
     (let t = now st + ms;
          due = filter (\<lambda>e. snd e \<le> t) (timers st);
          st1 = st\<lparr>now := t, timers := filter (\<lambda>e. \<not> snd e \<le> t) (timers st),
                  fired := fired st @ map fst due\<rparr>
      in fold (\<lambda>e. response_timeout) due st1)"

subsection \<open>The selection of a file\<close>

text \<open>
  \<open>processImage\<close>, for \<open>event.target.files?.[0]\<close> being \<open>selected\<close> (\<open>None\<close> is
  \<open>undefined\<close>) and an upload that emits \<open>events\<close> and settles as \<open>outcome\<close>.
\<close>

definition processImage ::
    "jsfile option \<Rightarrow> progress option list \<Rightarrow> settled \<Rightarrow> app \<Rightarrow> app" where
  "processImage selected events outcome st =
     (case selected of
        None \<Rightarrow> st
      | Some selectedImage \<Rightarrow>
          let st1 = st\<lparr>numberPlate := ''Number plate: .....''\<rparr>;
              st2 = st1\<lparr>image := Some selectedImage\<rparr>;
              st3 = st2\<lparr>message := ''Uploading... 0%''\<rparr>;
              (uploadResult, st4) = uploadFileToS3 selectedImage events outcome st3
          in if uploadResult then sendMessage (name selectedImage) st4 else st4)"

subsection \<open>The first render and the connection\<close>

text \<open>
  The state at the first render; the argument is the environment variable
  \<open>REACT_APP_S3_BUCKET\<close>.
\<close>

definition initial :: "string option \<Rightarrow> app" where
  "initial env_bucket =
     \<lparr>image = None, message = [], ws = None, numberPlate = [],
      socketStatusColour = ''grey'', responseTimeoutRef = None,
      bucketName = (case env_bucket of
                      None \<Rightarrow> ''vehicle-identifier-bucket''
                    | Some b \<Rightarrow> if b = [] then ''vehicle-identifier-bucket'' else b),
      timers = [], nextTimer = 0, now = 0, fired = []\<rparr>"

text \<open>The first effect: \<open>new WebSocket(webSocketUrl)\<close> and \<open>setWs\<close>.\<close>

definition mount :: "app \<Rightarrow> app" where
  "mount st = st\<lparr>ws := Some \<lparr>readyState = CONNECTING, sent = []\<rparr>\<rparr>"

text \<open>The browser opens the connection and dispatches the \<open>open\<close> event.\<close>

definition opened :: "app \<Rightarrow> app" where
  "opened st = onopen (st\<lparr>ws := map_option (\<lambda>sock. sock\<lparr>readyState := OPEN\<rparr>) (ws st)\<rparr>)"

subsection \<open>Readings of the state\<close>

text \<open>The channel is connected: there is a WebSocket and it is \<open>OPEN\<close>.\<close>

definition connected :: "app \<Rightarrow> bool" where
  "connected st = (case ws st of None \<Rightarrow> False | Some sock \<Rightarrow> readyState sock = OPEN)"

text \<open>A wait for the result is pending: the ref holds a handle that is scheduled.\<close>

definition pending :: "app \<Rightarrow> bool" where
  "pending st = (case responseTimeoutRef st of None \<Rightarrow> False | Some h \<Rightarrow> scheduled h st)"

text \<open>The frames sent so far.\<close>

definition frames :: "app \<Rightarrow> payload list" where
  "frames st = (case ws st of None \<Rightarrow> [] | Some sock \<Rightarrow> sent sock)"

text \<open>The number of a handle.\<close>

fun handle_number :: "timeoutID \<Rightarrow> nat" where
  "handle_number (TimeoutID n) = n"

text \<open>
  Every handle that is scheduled or has fired was issued by \<open>setTimeout\<close>: its number
  is below \<open>nextTimer\<close>.
\<close>

definition issued :: "app \<Rightarrow> bool" where
  "issued st =
     (list_all (\<lambda>e. handle_number (fst e) < nextTimer st) (timers st) \<and>
      list_all (\<lambda>h. handle_number h < nextTimer st) (fired st))"

text \<open>How many times the callback of a handle has run.\<close>

definition runs :: "timeoutID \<Rightarrow> app \<Rightarrow> nat" where
  "runs h st = count_list (fired st) h"

subsection \<open>Sample states and frames\<close>

text \<open>The component after the connection has opened, with the default bucket.\<close>

definition ready :: app where
  "ready = opened (mount (initial None))"

text \<open>A file of 1 000 000 bytes.\<close>

definition car :: jsfile where
  "car = \<lparr>name = ''car.jpg'', fsize = 1000000\<rparr>"

text \<open>
  The component after \<open>car\<close> was selected in \<open>ready\<close>, uploaded without a progress
  event, and announced: the wait for the result is on.
\<close>

definition awaiting :: app where
  "awaiting = processImage (Some car) [] Fulfilled ready"

text \<open>
  \<open>JSON.parse\<close> on the frames of the examples: an object with a \<open>message\<close>, the empty
  object, \<open>null\<close>; the other frame used there, \<open>not json\<close>, is a \<open>SyntaxError\<close>.
\<close>

definition parse_frame :: "string \<Rightarrow> json option" where
  \<open>parse_frame s =
     (if s = ''{"message":"XYZ123"}'' then Some (JObject [(''message'', JString ''XYZ123'')])
      else if s = ''{}'' then Some (JObject [])
      else if s = ''null'' then Some JNull
      else None)\<close>

text \<open>A second file.\<close>

definition van :: jsfile where
  "van = \<lparr>name = ''van.jpg'', fsize = 2000000\<rparr>"

text \<open>
  The component after \<open>van\<close> was selected ten seconds into the wait for \<open>car\<close>,
  uploaded and announced.
\<close>

definition superseding :: app where
  "superseding = processImage (Some van) [] Fulfilled (elapse 10000 awaiting)"

subsection \<open>Readings of the progress\<close>

text \<open>
  The formula of the specification, \<open>round(min(1, loaded/total) * 100)\<close>, as it is
  written: the quotient and the product are exact, and \<open>round\<close> is the nearest integer.
\<close>

definition spec_percent :: "nat \<Rightarrow> nat \<Rightarrow> int" where
  "spec_percent l t = round (min 1 (of_nat l / of_nat t :: rat) * 100)"

text \<open>
  The same formula as JavaScript evaluates it: the quotient and the product are each
  rounded to a binary64 number, and the rounding is \<open>Math.round\<close>.
\<close>

definition binary64_percent :: "nat \<Rightarrow> nat \<Rightarrow> int" where
  "binary64_percent l t = Math_round (double (min 1 (double (of_nat l / of_nat t)) * 100))"

text \<open>The status after each of a sequence of progress events.\<close>

fun statuses :: "jsfile \<Rightarrow> progress option list \<Rightarrow> app \<Rightarrow> string list" where
  "statuses img [] st = []"
| "statuses img (e # es) st =
     message (httpUploadProgress img e st) # statuses img es (httpUploadProgress img e st)"

text \<open>
  The percentages published for a sequence of progress events: one for each event
  whose total is positive.
\<close>

definition percentages :: "jsfile \<Rightarrow> progress option list \<Rightarrow> int list" where
  "percentages img events =
     map (\<lambda>e. percent (progress_loaded e) (progress_total img e))
       (filter (\<lambda>e. 0 < progress_total img e) events)"

text \<open>A progress event with both byte counts.\<close>

definition bytes :: "nat \<Rightarrow> nat \<Rightarrow> progress option" where
  "bytes l t = Some \<lparr>loaded = Some l, total = Some t\<rparr>"

text \<open>A file of 40 bytes.\<close>

definition small :: jsfile where
  "small = \<lparr>name = ''small.jpg'', fsize = 40\<rparr>"

text \<open>A file without content.\<close>

definition empty_file :: jsfile where
  "empty_file = \<lparr>name = ''empty.jpg'', fsize = 0\<rparr>"

section \<open>Properties\<close>

subsection \<open>The upload leaves everything but the status alone\<close>

lemma fold_progress_frame:
  "fold (httpUploadProgress img) events st =
     st\<lparr>message := message (fold (httpUploadProgress img) events st)\<rparr>"
proof (induction events arbitrary: st)
  case Nil
  show ?case by simp
next
  case (Cons e es)
  have "fold (httpUploadProgress img) (e # es) st =
          fold (httpUploadProgress img) es (httpUploadProgress img e st)"
    by simp
  also have "\<dots> = (httpUploadProgress img e st)
      \<lparr>message := message (fold (httpUploadProgress img) es (httpUploadProgress img e st))\<rparr>"
    by (rule Cons.IH)
  also have "\<dots> = st\<lparr>message := message (fold (httpUploadProgress img) (e # es) st)\<rparr>"
    by (simp add: httpUploadProgress_def Let_def)
  finally show ?case .
qed

lemma upload_rejected:
  "uploadFileToS3 img events Rejected st = (False, st\<lparr>message := ''Upload is failed''\<rparr>)"
  by (simp add: uploadFileToS3_def Let_def) (subst fold_progress_frame, simp)

lemma upload_fulfilled:
  "uploadFileToS3 img events Fulfilled st = (True, st\<lparr>message := ''Upload is done''\<rparr>)"
  by (simp add: uploadFileToS3_def Let_def) (subst fold_progress_frame, simp)

subsection \<open>A selection without a file\<close>

text \<open>
  C10. A file-selection event that carries no file changes nothing: the state after
  \<open>processImage\<close> is the state before it, whatever it was (image, status, result text,
  ref, scheduled timeouts, frames sent), and no upload is started, so that the progress
  events and the outcome of an upload have no part in the result.
\<close>

theorem no_file_selected: "processImage None events outcome st = st"
  by (simp add: processImage_def)

subsection \<open>A failed upload\<close>

text \<open>
  C9. When the upload of the selected file fails, \<open>processImage\<close> ends with the status
  \<open>Upload is failed\<close>; it has sent no frame over the WebSocket and has scheduled no
  timeout, and the ref is as it was. Whatever the progress events were, the state is
  the state before with the placeholder result, the image and that status.
\<close>

theorem upload_failure_sends_nothing:
  "processImage (Some f) events Rejected st =
     st\<lparr>numberPlate := ''Number plate: .....'', image := Some f,
        message := ''Upload is failed''\<rparr> \<and>
   message (processImage (Some f) events Rejected st) = ''Upload is failed'' \<and>
   frames (processImage (Some f) events Rejected st) = frames st \<and>
   timers (processImage (Some f) events Rejected st) = timers st \<and>
   responseTimeoutRef (processImage (Some f) events Rejected st) = responseTimeoutRef st"
  by (simp add: processImage_def Let_def upload_rejected frames_def)

subsection \<open>The sample states\<close>

lemma processImage_fulfilled:
  "processImage (Some f) events Fulfilled st =
     sendMessage (name f)
       (st\<lparr>numberPlate := ''Number plate: .....'', image := Some f,
           message := ''Upload is done''\<rparr>)"
  by (simp add: processImage_def Let_def upload_fulfilled)

lemma ready_eq:
  "ready =
     \<lparr>image = None, message = [], ws = Some \<lparr>readyState = OPEN, sent = []\<rparr>,
      numberPlate = [], socketStatusColour = ''green'', responseTimeoutRef = None,
      bucketName = ''vehicle-identifier-bucket'', timers = [], nextTimer = 0, now = 0,
      fired = []\<rparr>"
  by (simp add: ready_def opened_def mount_def initial_def onopen_def)

lemma awaiting_eq:
  "awaiting =
     \<lparr>image = Some car, message = ''Processing image....'',
      ws = Some \<lparr>readyState = OPEN,
                 sent = [\<lparr>action = ''sendVehicleInfo'', bucket = ''vehicle-identifier-bucket'',
                          key = ''car.jpg''\<rparr>]\<rparr>,
      numberPlate = ''Number plate: .....'', socketStatusColour = ''green'',
      responseTimeoutRef = Some (TimeoutID 0), bucketName = ''vehicle-identifier-bucket'',
      timers = [(TimeoutID 0, 15000)], nextTimer = 1, now = 0, fired = []\<rparr>"
  by (simp add: awaiting_def processImage_fulfilled sendMessage_def ready_eq setTimeout_def
        Let_def car_def)

subsection \<open>Sending while the channel is not connected\<close>

text \<open>
  C7. When the channel is not connected (there is no WebSocket yet, or its
  \<open>readyState\<close> is not \<open>OPEN\<close>), \<open>sendMessage\<close> only publishes that the channel is not
  ready: no frame is sent, no timeout is scheduled, the ref is as it was, and a wait is
  pending after it only if one was pending before. The same holds for the whole of
  \<open>processImage\<close> on an upload that succeeds.
\<close>

theorem send_not_connected:
  assumes "\<not> connected st"
  shows "message (sendMessage imageName st) =
           (if ws st = None then ''WebSocket is not connected''
            else ''WebSocket not ready yet. Please try again in a moment'') \<and>
         frames (sendMessage imageName st) = frames st \<and>
         timers (sendMessage imageName st) = timers st \<and>
         responseTimeoutRef (sendMessage imageName st) = responseTimeoutRef st \<and>
         (pending (sendMessage imageName st) \<longleftrightarrow> pending st) \<and>
         frames (processImage (Some f) events Fulfilled st) = frames st \<and>
         timers (processImage (Some f) events Fulfilled st) = timers st \<and>
         responseTimeoutRef (processImage (Some f) events Fulfilled st) = responseTimeoutRef st \<and>
         (pending (processImage (Some f) events Fulfilled st) \<longleftrightarrow> pending st)"
  using assms
  by (auto simp: processImage_fulfilled sendMessage_def connected_def frames_def pending_def
        scheduled_def split: option.splits)

theorem send_not_connected_witness:
  "\<not> connected (mount (initial None)) \<and>
   message (sendMessage ''car.jpg'' (mount (initial None))) =
     ''WebSocket not ready yet. Please try again in a moment'' \<and>
   frames (sendMessage ''car.jpg'' (mount (initial None))) = [] \<and>
   timers (sendMessage ''car.jpg'' (mount (initial None))) = [] \<and>
   \<not> pending (sendMessage ''car.jpg'' (mount (initial None)))"
proof -
  have h: "\<not> connected (mount (initial None))"
    by (simp add: connected_def mount_def initial_def)
  have "frames (mount (initial None)) = []" "timers (mount (initial None)) = []"
       "\<not> pending (mount (initial None))" "ws (mount (initial None)) \<noteq> None"
    by (simp_all add: frames_def mount_def initial_def pending_def)
  then show ?thesis
    using h send_not_connected [OF h, of "''car.jpg''"] by simp
qed

subsection \<open>A result frame during the wait\<close>

text \<open>
  C8. A frame that parses to an object whose \<open>message\<close> is the string \<open>text\<close>, arriving
  while the ref holds a scheduled timeout, completes the wait: the status is
  \<open>Completed\<close>, the result published is \<open>Number plate: \<close> followed by \<open>text\<close>, the
  timeout is cancelled and the ref is \<open>null\<close>. The witness is the frame
  \<open>{"message":"XYZ123"}\<close>.
\<close>

theorem result_frame:
  assumes "JSON_parse data = Some (JObject [(''message'', JString text)])"
      and "responseTimeoutRef st = Some h" and "scheduled h st"
  shows "message (onmessage JSON_parse data st) = ''Completed'' \<and>
         numberPlate (onmessage JSON_parse data st) = ''Number plate: '' @ text \<and>
         responseTimeoutRef (onmessage JSON_parse data st) = None \<and>
         \<not> scheduled h (onmessage JSON_parse data st) \<and>
         \<not> pending (onmessage JSON_parse data st)"
  using assms
  by (auto simp: onmessage_def template_def clearTimeout_def scheduled_def pending_def Let_def)

theorem result_frame_witness:
  \<open>pending awaiting \<and>
   message (onmessage parse_frame ''{"message":"XYZ123"}'' awaiting) = ''Completed'' \<and>
   numberPlate (onmessage parse_frame ''{"message":"XYZ123"}'' awaiting) =
     ''Number plate: XYZ123'' \<and>
   responseTimeoutRef (onmessage parse_frame ''{"message":"XYZ123"}'' awaiting) = None \<and>
   \<not> scheduled (TimeoutID 0) (onmessage parse_frame ''{"message":"XYZ123"}'' awaiting)\<close>
proof -
  have p: \<open>parse_frame ''{"message":"XYZ123"}'' =
             Some (JObject [(''message'', JString ''XYZ123'')])\<close>
    by (simp add: parse_frame_def)
  have r: "responseTimeoutRef awaiting = Some (TimeoutID 0)"
    by (simp add: awaiting_eq)
  have s: "scheduled (TimeoutID 0) awaiting"
    by (simp add: awaiting_eq scheduled_def)
  have "pending awaiting"
    by (simp add: pending_def r s)
  then show ?thesis
    using result_frame [where JSON_parse = parse_frame, OF p r s] by simp
qed

subsection \<open>The passing of time\<close>

lemma fold_response_timeout:
  "fold (\<lambda>e. response_timeout) due st =
     (if due = [] then st
      else st\<lparr>message := ''No response from server yet. Check backend logs.''\<rparr>)"
  by (induction due arbitrary: st) (auto simp: response_timeout_def)

lemma elapse_eq:
  "elapse ms st =
     (let t = now st + ms;
          due = filter (\<lambda>e. snd e \<le> t) (timers st);
          st1 = st\<lparr>now := t, timers := filter (\<lambda>e. \<not> snd e \<le> t) (timers st),
                  fired := fired st @ map fst due\<rparr>
      in if due = [] then st1
         else st1\<lparr>message := ''No response from server yet. Check backend logs.''\<rparr>)"
  by (simp add: elapse_def Let_def fold_response_timeout)

lemma issued_initial: "issued (initial b)"
  by (simp add: issued_def initial_def)

lemma issued_mount: "issued st \<Longrightarrow> issued (mount st)"
  by (simp add: issued_def mount_def)

lemma issued_opened: "issued st \<Longrightarrow> issued (opened st)"
  by (simp add: issued_def opened_def onopen_def)

lemma issued_onerror: "issued st \<Longrightarrow> issued (onerror st)"
  by (simp add: issued_def onerror_def)

lemma issued_onclose: "issued st \<Longrightarrow> issued (onclose st)"
  by (simp add: issued_def onclose_def)

lemma issued_onmessage: "issued st \<Longrightarrow> issued (onmessage P d st)"
  by (auto simp: issued_def onmessage_def clearTimeout_def Let_def list_all_iff
           split: option.splits)

lemma issued_sendMessage: "issued st \<Longrightarrow> issued (sendMessage n st)"
  by (auto simp: issued_def sendMessage_def setTimeout_def Let_def list_all_iff
           split: option.splits)

lemma issued_processImage: "issued st \<Longrightarrow> issued (processImage sel events outcome st)"
proof (cases sel)
  case None
  then show "issued st \<Longrightarrow> ?thesis" by (simp add: processImage_def)
next
  case (Some f)
  assume i: "issued st"
  show ?thesis
  proof (cases outcome)
    case Fulfilled
    have "issued (st\<lparr>numberPlate := ''Number plate: .....'', image := Some f,
           message := ''Upload is done''\<rparr>)"
      using i by (simp add: issued_def)
    then show ?thesis
      using Some Fulfilled by (simp add: processImage_fulfilled issued_sendMessage)
  next
    case Rejected
    then show ?thesis
      using Some i by (simp add: processImage_def upload_rejected issued_def)
  qed
qed

lemma issued_elapse: "issued st \<Longrightarrow> issued (elapse ms st)"
  by (auto simp: issued_def elapse_eq Let_def list_all_iff)



subsection \<open>More on the sample states\<close>

lemma nextTimer_ready: "nextTimer ready = 0"
  by (simp add: ready_eq)

lemma connected_ready: "connected ready"
  by (simp add: ready_eq connected_def)

lemma issued_ready: "issued ready"
  by (simp add: ready_eq issued_def)

lemma superseding_eq:
  "superseding =
     \<lparr>image = Some van, message = ''Processing image....'',
      ws = Some \<lparr>readyState = OPEN,
                 sent = [\<lparr>action = ''sendVehicleInfo'', bucket = ''vehicle-identifier-bucket'',
                          key = ''car.jpg''\<rparr>,
                         \<lparr>action = ''sendVehicleInfo'', bucket = ''vehicle-identifier-bucket'',
                          key = ''van.jpg''\<rparr>]\<rparr>,
      numberPlate = ''Number plate: .....'', socketStatusColour = ''green'',
      responseTimeoutRef = Some (TimeoutID 1), bucketName = ''vehicle-identifier-bucket'',
      timers = [(TimeoutID 0, 15000), (TimeoutID 1, 25000)], nextTimer = 2, now = 10000,
      fired = []\<rparr>"
  by (simp add: superseding_def processImage_fulfilled sendMessage_def awaiting_eq elapse_eq
        setTimeout_def Let_def van_def)


subsection \<open>The timeout of the wait\<close>

lemma sendMessage_connected:
  assumes "connected st"
  shows "sendMessage n st =
     st\<lparr>message := ''Processing image....'',
        ws := map_option (\<lambda>sock. sock\<lparr>sent := sent sock @
               [\<lparr>action = ''sendVehicleInfo'', bucket = bucketName st, key = n\<rparr>]\<rparr>) (ws st),
        timers := timers st @ [(TimeoutID (nextTimer st), now st + 15000)],
        nextTimer := Suc (nextTimer st),
        responseTimeoutRef := Some (TimeoutID (nextTimer st))\<rparr>"
  using assms
  by (auto simp: sendMessage_def connected_def setTimeout_def Let_def split: option.splits)

lemma issued_fresh:
  assumes "issued st"
  shows "TimeoutID (nextTimer st) \<notin> fst ` set (timers st)"
    and "TimeoutID (nextTimer st) \<notin> set (fired st)"
  using assms by (force simp: issued_def list_all_iff)+

lemma count_list_0: "x \<notin> set xs \<Longrightarrow> count_list xs x = 0"
  by (induction xs) auto


text \<open>
  C3, amended. After \<open>sendMessage\<close> on a connected channel the ref holds a fresh
  handle, which is scheduled. If nothing but time happens, the callback of that handle
  has not run before 15 000 ms have passed and the handle is still scheduled; once
  15 000 ms or more have passed it has run exactly once, the status is
  \<open>No response from server yet. Check backend logs.\<close>, and the handle is no longer
  scheduled; however much more time passes, it has still run exactly once and the status
  is the same. (The claim has the status \<open>No response from server yet.\<close>, which is not
  the string of the code.)
\<close>

theorem response_timeout_once:
  assumes c: "connected st" and i: "issued st"
  shows "responseTimeoutRef (sendMessage n st) = Some (TimeoutID (nextTimer st)) \<and>
         scheduled (TimeoutID (nextTimer st)) (sendMessage n st) \<and>
         runs (TimeoutID (nextTimer st)) (sendMessage n st) = 0 \<and>
         (\<forall>d<15000. scheduled (TimeoutID (nextTimer st)) (elapse d (sendMessage n st)) \<and>
                     runs (TimeoutID (nextTimer st)) (elapse d (sendMessage n st)) = 0) \<and>
         (\<forall>d\<ge>15000.
            message (elapse d (sendMessage n st)) =
              ''No response from server yet. Check backend logs.'' \<and>
            \<not> scheduled (TimeoutID (nextTimer st)) (elapse d (sendMessage n st)) \<and>
            runs (TimeoutID (nextTimer st)) (elapse d (sendMessage n st)) = 1 \<and>
            (\<forall>d'. message (elapse d' (elapse d (sendMessage n st))) =
                     ''No response from server yet. Check backend logs.'' \<and>
                   runs (TimeoutID (nextTimer st)) (elapse d' (elapse d (sendMessage n st))) = 1))"
proof -
  let ?h = "TimeoutID (nextTimer st)"
  let ?s = "sendMessage n st"
  note f = issued_fresh [OF i]
  have run0: "count_list (fired st) ?h = 0"
    using f(2) by (rule count_list_0)
  have old: "\<And>P. ?h \<notin> fst ` set (filter P (timers st))"
    using f(1) by auto
  have cnt: "\<And>P. count_list (map fst (filter P (timers st))) ?h = 0"
    using old by (intro count_list_0) simp
  have a: "responseTimeoutRef ?s = Some ?h" "scheduled ?h ?s" "runs ?h ?s = 0"
    using run0 by (simp_all add: sendMessage_connected [OF c] scheduled_def runs_def)
  have b: "scheduled ?h (elapse d ?s) \<and> runs ?h (elapse d ?s) = 0" if "d < 15000" for d
    using that run0 cnt
    by (simp add: sendMessage_connected [OF c] elapse_eq Let_def scheduled_def runs_def)
  have c1: "message (elapse d ?s) = ''No response from server yet. Check backend logs.'' \<and>
            \<not> scheduled ?h (elapse d ?s) \<and> runs ?h (elapse d ?s) = 1" if "15000 \<le> d" for d
    using that run0 cnt old
    by (simp add: sendMessage_connected [OF c] elapse_eq Let_def scheduled_def runs_def)
  have d1: "message (elapse d' (elapse d ?s)) = ''No response from server yet. Check backend logs.'' \<and>
            runs ?h (elapse d' (elapse d ?s)) = 1" if "15000 \<le> d" for d d'
  proof -
    have m: "message (elapse d ?s) = ''No response from server yet. Check backend logs.''"
      and ns: "\<not> scheduled ?h (elapse d ?s)" and r: "runs ?h (elapse d ?s) = 1"
      using c1 [OF that] by simp_all
    have "?h \<notin> fst ` set (filter P (timers (elapse d ?s)))" for P
      using ns by (auto simp: scheduled_def)
    then have "count_list (map fst (filter P (timers (elapse d ?s)))) ?h = 0" for P
      by (intro count_list_0) simp
    then show ?thesis
      using m r by (simp add: elapse_eq [of d' "elapse d ?s"] Let_def runs_def)
  qed
  show ?thesis
    using a b c1 d1 by blast
qed

theorem response_timeout_once_witness:
  "connected ready \<and> issued ready \<and>
   scheduled (TimeoutID 0) (elapse 14999 (sendMessage ''car.jpg'' ready)) \<and>
   runs (TimeoutID 0) (elapse 14999 (sendMessage ''car.jpg'' ready)) = 0 \<and>
   message (elapse 15000 (sendMessage ''car.jpg'' ready)) =
     ''No response from server yet. Check backend logs.'' \<and>
   runs (TimeoutID 0) (elapse 15000 (sendMessage ''car.jpg'' ready)) = 1 \<and>
   runs (TimeoutID 0) (elapse 60000 (elapse 15000 (sendMessage ''car.jpg'' ready))) = 1"
proof -
  have a: "(14999::nat) < 15000" and b: "(15000::nat) \<le> 15000" by simp_all
  show ?thesis
    using response_timeout_once [OF connected_ready issued_ready, of "''car.jpg''"] a b
    unfolding nextTimer_ready
    using connected_ready issued_ready by blast
qed


text \<open>
  The claim as stated fails on the status: after 15 000 ms of waiting it is not
  \<open>No response from server yet.\<close>
\<close>

theorem response_timeout_status_counterexample:
  "connected ready \<and> pending awaiting \<and> frames awaiting \<noteq> [] \<and>
   message (elapse 15000 awaiting) = ''No response from server yet. Check backend logs.'' \<and>
   message (elapse 15000 awaiting) \<noteq> ''No response from server yet.''"
  by (simp add: connected_ready awaiting_eq elapse_eq Let_def pending_def scheduled_def frames_def)

subsection \<open>A frame that is not a result\<close>

text \<open>
  C2, amended. A frame on which \<open>JSON.parse\<close> throws, or that parses to \<open>null\<close>,
  changes neither the status nor the result text nor the image nor the indicator; but
  the timeout held in the ref has been cancelled and the ref set to \<open>null\<close> before the
  frame was parsed, so no wait is pending after it. A frame that parses to a value
  other than \<open>null\<close> without a \<open>message\<close> is not dropped: the status becomes
  \<open>Completed\<close> and the result \<open>Number plate: undefined\<close>.
\<close>

theorem malformed_frame:
  "(JSON_parse data = None \<or> JSON_parse data = Some JNull \<longrightarrow>
      onmessage JSON_parse data st =
        (case responseTimeoutRef st of
           None \<Rightarrow> st
         | Some h \<Rightarrow> (clearTimeout h st)\<lparr>responseTimeoutRef := None\<rparr>) \<and>
      message (onmessage JSON_parse data st) = message st \<and>
      numberPlate (onmessage JSON_parse data st) = numberPlate st \<and>
      image (onmessage JSON_parse data st) = image st \<and>
      socketStatusColour (onmessage JSON_parse data st) = socketStatusColour st \<and>
      responseTimeoutRef (onmessage JSON_parse data st) = None \<and>
      \<not> pending (onmessage JSON_parse data st)) \<and>
   (JSON_parse data = Some d \<and> get_message d = Some None \<longrightarrow>
      message (onmessage JSON_parse data st) = ''Completed'' \<and>
      numberPlate (onmessage JSON_parse data st) = ''Number plate: undefined'' \<and>
      responseTimeoutRef (onmessage JSON_parse data st) = None \<and>
      \<not> pending (onmessage JSON_parse data st))"
  by (auto simp: onmessage_def template_def clearTimeout_def pending_def Let_def
           split: option.splits)


theorem malformed_frame_witness:
  \<open>(parse_frame ''not json'' = None \<or> parse_frame ''not json'' = Some JNull) \<and>
   message (onmessage parse_frame ''not json'' awaiting) = ''Processing image....'' \<and>
   numberPlate (onmessage parse_frame ''not json'' awaiting) = ''Number plate: .....'' \<and>
   responseTimeoutRef (onmessage parse_frame ''not json'' awaiting) = None \<and>
   parse_frame ''{}'' = Some (JObject []) \<and> get_message (JObject []) = Some None \<and>
   message (onmessage parse_frame ''{}'' awaiting) = ''Completed'' \<and>
   numberPlate (onmessage parse_frame ''{}'' awaiting) = ''Number plate: undefined''\<close>
proof -
  have a: \<open>parse_frame ''not json'' = None \<or> parse_frame ''not json'' = Some JNull\<close>
    by (simp add: parse_frame_def)
  have b: \<open>parse_frame ''{}'' = Some (JObject []) \<and> get_message (JObject []) = Some None\<close>
    by (simp add: parse_frame_def)
  have m: "message awaiting = ''Processing image....''"
          "numberPlate awaiting = ''Number plate: .....''"
    by (simp_all add: awaiting_eq)
  have 1: "message (onmessage parse_frame ''not json'' awaiting) = message awaiting \<and>
           numberPlate (onmessage parse_frame ''not json'' awaiting) = numberPlate awaiting \<and>
           responseTimeoutRef (onmessage parse_frame ''not json'' awaiting) = None"
    using a malformed_frame [where JSON_parse = parse_frame and data = "''not json''"
                               and st = awaiting]
    by blast
  have 2: "message (onmessage parse_frame ''{}'' awaiting) = ''Completed'' \<and>
           numberPlate (onmessage parse_frame ''{}'' awaiting) = ''Number plate: undefined''"
    using b malformed_frame [where JSON_parse = parse_frame and data = "''{}''"
                               and st = awaiting and d = "JObject []"]
    by blast
  show ?thesis
    using a b m 1 2 by simp
qed


text \<open>
  The claim as stated fails in the wait for \<open>car\<close>: the frame \<open>not json\<close> cancels the
  pending timeout (15 000 ms later the status is still \<open>Processing image....\<close>), and the
  frame \<open>{}\<close>, which has no \<open>message\<close>, completes the wait.
\<close>

theorem malformed_frame_counterexample:
  \<open>parse_frame ''not json'' = None \<and> pending awaiting \<and>
   scheduled (TimeoutID 0) awaiting \<and>
   \<not> scheduled (TimeoutID 0) (onmessage parse_frame ''not json'' awaiting) \<and>
   responseTimeoutRef (onmessage parse_frame ''not json'' awaiting) = None \<and>
   timers (onmessage parse_frame ''not json'' awaiting) = [] \<and>
   message (elapse 15000 (onmessage parse_frame ''not json'' awaiting)) = ''Processing image....'' \<and>
   parse_frame ''{}'' = Some (JObject []) \<and>
   message (onmessage parse_frame ''{}'' awaiting) = ''Completed'' \<and>
   numberPlate (onmessage parse_frame ''{}'' awaiting) = ''Number plate: undefined''\<close>
  by (simp add: parse_frame_def awaiting_eq onmessage_def clearTimeout_def pending_def
        scheduled_def template_def elapse_eq Let_def)


subsection \<open>An error or a close of the channel\<close>

text \<open>
  C4, amended. The \<open>error\<close> event sets the indicator to red and the status to
  \<open>WebSocket error while processing image\<close>; the \<open>close\<close> event sets the indicator to
  grey and leaves the status as it is. Neither touches the ref or the scheduled
  timeouts: a wait that was pending is pending after the event.
\<close>

theorem channel_error_or_close:
  "onerror st = st\<lparr>socketStatusColour := ''red'',
                   message := ''WebSocket error while processing image''\<rparr> \<and>
   timers (onerror st) = timers st \<and>
   responseTimeoutRef (onerror st) = responseTimeoutRef st \<and>
   (pending (onerror st) \<longleftrightarrow> pending st) \<and>
   onclose st = st\<lparr>socketStatusColour := ''grey''\<rparr> \<and>
   message (onclose st) = message st \<and>
   timers (onclose st) = timers st \<and>
   responseTimeoutRef (onclose st) = responseTimeoutRef st \<and>
   (pending (onclose st) \<longleftrightarrow> pending st)"
  by (simp add: onerror_def onclose_def pending_def scheduled_def split: option.splits)


text \<open>
  The claim as stated fails in the wait for \<open>car\<close>: after the \<open>error\<close> event the
  timeout is still scheduled and later replaces the status, and after the \<open>close\<close>
  event the status is still \<open>Processing image....\<close> with the timeout scheduled.
\<close>

theorem channel_error_or_close_counterexample:
  "pending awaiting \<and>
   pending (onerror awaiting) \<and> scheduled (TimeoutID 0) (onerror awaiting) \<and>
   message (elapse 15000 (onerror awaiting)) =
     ''No response from server yet. Check backend logs.'' \<and>
   pending (onclose awaiting) \<and> scheduled (TimeoutID 0) (onclose awaiting) \<and>
   message (onclose awaiting) = ''Processing image....''"
  by (simp add: awaiting_eq onerror_def onclose_def pending_def scheduled_def elapse_eq Let_def)

subsection \<open>A new selection during the wait\<close>

lemma onmessage_result:
  assumes "JSON_parse data = Some (JObject [(''message'', JString text)])"
  shows "message (onmessage JSON_parse data st) = ''Completed''"
    and "numberPlate (onmessage JSON_parse data st) = ''Number plate: '' @ text"
    and "responseTimeoutRef (onmessage JSON_parse data st) = None"
    and "\<not> pending (onmessage JSON_parse data st)"
    and "responseTimeoutRef st = Some h \<longrightarrow> \<not> scheduled h (onmessage JSON_parse data st)"
  using assms
  by (auto simp: onmessage_def template_def clearTimeout_def pending_def scheduled_def Let_def
        split: option.splits)


text \<open>
  C1, amended. The component keeps no identity of the selection a frame or a timeout
  belongs to. A result frame that arrives after a new file was selected, whatever the
  state before the selection and however the upload went, is applied to the state as
  it is then: the status becomes \<open>Completed\<close>, the result is the text of the frame, the
  timeout that the ref held is cancelled, the ref is \<open>null\<close> and no wait is pending.
\<close>

theorem stale_result_applied:
  assumes "JSON_parse data = Some (JObject [(''message'', JString text)])"
  shows "message (onmessage JSON_parse data (processImage (Some f) events outcome st)) =
           ''Completed'' \<and>
         numberPlate (onmessage JSON_parse data (processImage (Some f) events outcome st)) =
           ''Number plate: '' @ text \<and>
         responseTimeoutRef (onmessage JSON_parse data (processImage (Some f) events outcome st)) =
           None \<and>
         \<not> pending (onmessage JSON_parse data (processImage (Some f) events outcome st)) \<and>
         (responseTimeoutRef (processImage (Some f) events outcome st) = Some h \<longrightarrow>
            \<not> scheduled h
                (onmessage JSON_parse data (processImage (Some f) events outcome st)))"
  using onmessage_result [where JSON_parse = JSON_parse, OF assms] by simp


theorem stale_result_applied_witness:
  \<open>pending (elapse 10000 awaiting) \<and>
   message (onmessage parse_frame ''{"message":"XYZ123"}'' superseding) = ''Completed'' \<and>
   numberPlate (onmessage parse_frame ''{"message":"XYZ123"}'' superseding) =
     ''Number plate: XYZ123'' \<and>
   responseTimeoutRef (onmessage parse_frame ''{"message":"XYZ123"}'' superseding) = None \<and>
   responseTimeoutRef superseding = Some (TimeoutID 1) \<and>
   \<not> scheduled (TimeoutID 1) (onmessage parse_frame ''{"message":"XYZ123"}'' superseding)\<close>
proof -
  have p: \<open>parse_frame ''{"message":"XYZ123"}'' =
             Some (JObject [(''message'', JString ''XYZ123'')])\<close>
    by (simp add: parse_frame_def)
  have a: "pending (elapse 10000 awaiting)"
    by (simp add: awaiting_eq elapse_eq Let_def pending_def scheduled_def)
  have r: "responseTimeoutRef superseding = Some (TimeoutID 1)"
    by (simp add: superseding_eq)
  show ?thesis
    using a r stale_result_applied [where JSON_parse = parse_frame, OF p, of van "[]" Fulfilled
        "elapse 10000 awaiting" "TimeoutID 1"]
    by (simp add: superseding_def)
qed


text \<open>
  The claim as stated fails when \<open>van\<close> is selected ten seconds into the wait for
  \<open>car\<close>: the timeout of the first wait stays scheduled, and five seconds later its
  callback replaces the status while the second wait is pending; a result frame
  answering the first notification becomes the result of the second selection.
\<close>

theorem supersession_counterexample:
  \<open>pending (elapse 10000 awaiting) \<and>
   responseTimeoutRef (elapse 10000 awaiting) = Some (TimeoutID 0) \<and>
   superseding = processImage (Some van) [] Fulfilled (elapse 10000 awaiting) \<and>
   scheduled (TimeoutID 0) superseding \<and>
   responseTimeoutRef superseding = Some (TimeoutID 1) \<and>
   message superseding = ''Processing image....'' \<and>
   message (elapse 5000 superseding) = ''No response from server yet. Check backend logs.'' \<and>
   fired (elapse 5000 superseding) = [TimeoutID 0] \<and>
   pending (elapse 5000 superseding) \<and>
   numberPlate superseding = ''Number plate: .....'' \<and>
   message (onmessage parse_frame ''{"message":"XYZ123"}'' superseding) = ''Completed'' \<and>
   numberPlate (onmessage parse_frame ''{"message":"XYZ123"}'' superseding) =
     ''Number plate: XYZ123'' \<and>
   \<not> pending (onmessage parse_frame ''{"message":"XYZ123"}'' superseding)\<close>
proof -
  have p: \<open>parse_frame ''{"message":"XYZ123"}'' =
             Some (JObject [(''message'', JString ''XYZ123'')])\<close>
    by (simp add: parse_frame_def)
  have a: "pending (elapse 10000 awaiting)"
          "responseTimeoutRef (elapse 10000 awaiting) = Some (TimeoutID 0)"
    by (simp_all add: awaiting_eq elapse_eq Let_def pending_def scheduled_def)
  have b: "scheduled (TimeoutID 0) superseding"
          "responseTimeoutRef superseding = Some (TimeoutID 1)"
          "message superseding = ''Processing image....''"
          "numberPlate superseding = ''Number plate: .....''"
    by (simp_all add: superseding_eq scheduled_def)
  have c: "message (elapse 5000 superseding) =
             ''No response from server yet. Check backend logs.''"
          "fired (elapse 5000 superseding) = [TimeoutID 0]"
          "pending (elapse 5000 superseding)"
    by (simp_all add: superseding_eq elapse_eq Let_def pending_def scheduled_def)
  show ?thesis
    using a b c onmessage_result [where JSON_parse = parse_frame, OF p, of superseding]
    by (simp add: superseding_def [symmetric])
qed

subsection \<open>Rounding\<close>

lemma rne_of_int: "rne (of_int n) = n"
  by (simp add: rne_def)

lemma rne_mono:
  assumes "x \<le> y"
  shows "rne x \<le> rne y"
proof (cases "\<lfloor>x\<rfloor> = \<lfloor>y\<rfloor>")
  case True
  then show ?thesis
    using assms by (auto simp: rne_def Let_def)
next
  case False
  then have "\<lfloor>x\<rfloor> + 1 \<le> \<lfloor>y\<rfloor>"
    using floor_mono [OF assms] by linarith
  moreover have "rne x \<le> \<lfloor>x\<rfloor> + 1" "\<lfloor>y\<rfloor> \<le> rne y"
    by (auto simp: rne_def Let_def)
  ultimately show ?thesis by linarith
qed

lemma rne_ge: "of_int n \<le> x \<Longrightarrow> n \<le> rne x"
  using rne_mono [of "of_int n" x] by (simp add: rne_of_int)

lemma rne_le: "x \<le> of_int n \<Longrightarrow> rne x \<le> n"
  using rne_mono [of x "of_int n"] by (simp add: rne_of_int)

lemma powi_pos: "0 < (2::rat) powi e"
  by (simp add: power_int_def)

lemma powi_mono: "a \<le> b \<Longrightarrow> (2::rat) powi a \<le> 2 powi b"
  by (rule power_int_increasing) simp_all

lemma bitlen_powi:
  assumes "0 < p"
  shows "(2::rat) powi (bitlen p - 1) \<le> of_int p" "of_int p < (2::rat) powi bitlen p"
proof -
  have b: "1 \<le> bitlen p"
    using assms bitlen_eq_zero_iff [of p] bitlen_nonneg [of p] by linarith
  have "2 ^ nat (bitlen p - 1) \<le> p" "p < 2 ^ nat (bitlen p)"
    using bitlen_bounds [OF assms] by simp_all
  then have "(of_int (2 ^ nat (bitlen p - 1)) :: rat) \<le> of_int p"
            "(of_int p :: rat) < of_int (2 ^ nat (bitlen p))"
    by (simp_all only: of_int_le_iff of_int_less_iff)
  then show "(2::rat) powi (bitlen p - 1) \<le> of_int p" "of_int p < (2::rat) powi bitlen p"
    using b by (simp_all add: power_int_def)
qed

lemma binade_bounds:
  assumes "0 < x"
  shows "2 powi binade x \<le> x" and "x < 2 powi (binade x + 1)"
proof -
  obtain p q where pq: "quotient_of x = (p, q)" by (cases "quotient_of x")
  have q: "0 < q" using pq by (rule quotient_of_denom_pos)
  have x: "x = of_int p / of_int q" using pq by (rule quotient_of_div)
  have p: "0 < p" using assms q x by (simp add: zero_less_divide_iff)
  define k where "k = bitlen p - bitlen q"
  note bp = bitlen_powi [OF p] and bq = bitlen_powi [OF q]
  have up: "x < 2 powi (k + 1)"
  proof -
    have "x * of_int q = of_int p" using x q by simp
    also have "\<dots> < 2 powi bitlen p" by (rule bp(2))
    also have "\<dots> = 2 powi (k + 1) * 2 powi (bitlen q - 1)"
      by (simp add: k_def power_int_add [symmetric])
    also have "\<dots> \<le> 2 powi (k + 1) * of_int q"
      using bq(1) powi_pos [of "k + 1"] by (simp add: mult_left_mono)
    finally show ?thesis using q by simp
  qed
  have lo: "2 powi (k - 1) \<le> x"
  proof -
    have "(2::rat) powi (k - 1) * of_int q \<le> 2 powi (k - 1) * 2 powi bitlen q"
      using bq(2) powi_pos [of "k - 1"] by (simp add: mult_left_mono)
    also have "\<dots> = 2 powi (bitlen p - 1)"
      by (simp add: k_def power_int_add [symmetric])
    also have "\<dots> \<le> of_int p" by (rule bp(1))
    also have "\<dots> = x * of_int q" using x q by simp
    finally show ?thesis using q by simp
  qed
  have b: "binade x = (if 2 powi k \<le> x then k else k - 1)"
    by (simp add: binade_def pq k_def Let_def)
  show "2 powi binade x \<le> x" using lo b by simp
  show "x < 2 powi (binade x + 1)" using up b by (simp add: not_le)
qed

lemma double_pos:
  assumes "0 < x"
  shows "double x = of_int (rne (x / 2 powi (binade x - 52))) * 2 powi (binade x - 52)"
  using assms by (simp add: double_def Let_def)

lemma powi_split: "(2::rat) powi a * 2 powi b = 2 powi (a + b)"
  by (simp add: power_int_add)

lemma scale_52:
  "2 ^ 52 * (2::rat) powi (e - 52) = 2 powi e" "2 ^ 53 * (2::rat) powi (e - 52) = 2 powi (e + 1)"
  using powi_split [of 52 "e - 52"] powi_split [of 53 "e - 52"] by (simp_all add: add.commute)

lemma mantissa_bounds:
  assumes "0 < x"
  shows "2 ^ 52 \<le> rne (x / 2 powi (binade x - 52))"
    and "rne (x / 2 powi (binade x - 52)) \<le> 2 ^ 53"
proof -
  let ?s = "(2::rat) powi (binade x - 52)"
  have s: "0 < ?s" by (rule powi_pos)
  have "2 ^ 52 * ?s \<le> x" "x \<le> 2 ^ 53 * ?s"
    using binade_bounds [OF assms] by (simp_all only: scale_52)
  then have "of_int (2 ^ 52) \<le> x / ?s" "x / ?s \<le> of_int (2 ^ 53)"
    using s by (simp_all add: pos_le_divide_eq pos_divide_le_eq)
  then show "2 ^ 52 \<le> rne (x / ?s)" "rne (x / ?s) \<le> 2 ^ 53"
    by (simp_all only: rne_ge rne_le)
qed

lemma double_bounds:
  assumes "0 < x"
  shows "2 powi binade x \<le> double x" and "double x \<le> 2 powi (binade x + 1)"
proof -
  let ?s = "(2::rat) powi (binade x - 52)"
  let ?m = "rne (x / ?s)"
  have s: "0 < ?s" by (rule powi_pos)
  note e = scale_52 [of "binade x"]
  have "(of_int (2 ^ 52) :: rat) \<le> of_int ?m" "(of_int ?m :: rat) \<le> of_int (2 ^ 53)"
    using mantissa_bounds [OF assms] by (simp_all only: of_int_le_iff)
  then have "2 ^ 52 * ?s \<le> of_int ?m * ?s" "of_int ?m * ?s \<le> 2 ^ 53 * ?s"
    using s by (simp_all add: mult_right_mono)
  then show "2 powi binade x \<le> double x" "double x \<le> 2 powi (binade x + 1)"
    unfolding e double_pos [OF assms] by simp_all
qed

lemma binade_mono:
  assumes "0 < x" "x \<le> y"
  shows "binade x \<le> binade y"
proof (rule ccontr)
  assume "\<not> binade x \<le> binade y"
  then have "binade y + 1 \<le> binade x" by simp
  then have "(2::rat) powi (binade y + 1) \<le> 2 powi binade x" by (rule powi_mono)
  moreover have "2 powi binade x \<le> x" "y < 2 powi (binade y + 1)"
    using assms binade_bounds [of x] binade_bounds [of y] by simp_all
  ultimately show False using assms by simp
qed

lemma double_mono_pos:
  assumes "0 < x" "x \<le> y"
  shows "double x \<le> double y"
proof (cases "binade x = binade y")
  case True
  let ?s = "(2::rat) powi (binade y - 52)"
  have s: "0 < ?s" by (rule powi_pos)
  have "x / ?s \<le> y / ?s" using assms s by (simp add: divide_right_mono)
  then have "rne (x / ?s) \<le> rne (y / ?s)" by (rule rne_mono)
  then have "(of_int (rne (x / ?s)) :: rat) * ?s \<le> of_int (rne (y / ?s)) * ?s"
    using s by (simp add: mult_right_mono)
  then show ?thesis
    using assms True by (simp add: double_pos)
next
  case False
  then have "binade x + 1 \<le> binade y"
    using binade_mono [OF assms] by simp
  then have "(2::rat) powi (binade x + 1) \<le> 2 powi binade y" by (rule powi_mono)
  moreover have "double x \<le> 2 powi (binade x + 1)" "2 powi binade y \<le> double y"
    using assms double_bounds [of x] double_bounds [of y] by simp_all
  ultimately show ?thesis by simp
qed

lemma double_nonneg: "0 \<le> x \<Longrightarrow> 0 \<le> double x"
proof -
  assume "0 \<le> x"
  show ?thesis
  proof (cases "x = 0")
    case True
    then show ?thesis by (simp add: double_def)
  next
    case False
    then have x: "0 < x" using \<open>0 \<le> x\<close> by simp
    have "0 < (2::rat) powi binade x" by (rule powi_pos)
    then show ?thesis using double_bounds(1) [OF x] by linarith
  qed
qed

lemma double_mono:
  assumes "0 \<le> x" "x \<le> y"
  shows "double x \<le> double y"
proof (cases "x = 0")
  case True
  then show ?thesis using assms double_nonneg [of y] by (simp add: double_def)
next
  case False
  then show ?thesis using assms by (intro double_mono_pos) simp_all
qed

lemma double_1: "double 1 = 1"
  by code_simp

lemma double_100: "double 100 = 100"
  by code_simp

lemma Math_round_mono: "x \<le> y \<Longrightarrow> Math_round x \<le> Math_round y"
  by (simp add: Math_round_def floor_mono)

lemma Math_round_of_int: "Math_round (of_int n) = n"
  unfolding Math_round_def by (rule floor_unique) simp_all

lemma Math_round_100: "Math_round 100 = 100"
  using Math_round_of_int [of 100] by simp

lemma percent_bounds: "0 \<le> percent l t" "percent l t \<le> 100"
proof -
  have "(0::rat) \<le> of_nat l / of_nat t" by simp
  then have "0 \<le> double (of_nat l / of_nat t) * 100"
    using double_nonneg by simp
  then have "0 \<le> double (double (of_nat l / of_nat t) * 100)"
    by (rule double_nonneg)
  then have "0 \<le> Math_round (double (double (of_nat l / of_nat t) * 100))"
    by (simp add: Math_round_def)
  then show "0 \<le> percent l t" by (simp add: percent_def)
  show "percent l t \<le> 100" by (simp add: percent_def)
qed

lemma percent_mono:
  assumes "l \<le> l'"
  shows "percent l t \<le> percent l' t"
proof -
  have "(0::rat) \<le> of_nat l / of_nat t" by simp
  moreover have "(of_nat l :: rat) / of_nat t \<le> of_nat l' / of_nat t"
    using assms by (simp add: divide_right_mono)
  ultimately have d: "double (of_nat l / of_nat t) \<le> double (of_nat l' / of_nat t)"
    and n: "0 \<le> double (of_nat l / of_nat t)"
    using double_mono double_nonneg by simp_all
  have "double (double (of_nat l / of_nat t) * 100)
          \<le> double (double (of_nat l' / of_nat t) * 100)"
    using d n by (intro double_mono) simp_all
  then show ?thesis
    by (simp add: percent_def Math_round_mono min.coboundedI2)
qed


subsection \<open>The error of the rounding\<close>

lemma rne_error: "\<bar>of_int (rne x) - x\<bar> \<le> 1 / 2"
proof -
  define r where "r = x - of_int \<lfloor>x\<rfloor>"
  have r: "0 \<le> r" "r < 1" by (simp_all add: r_def) linarith+
  have x: "x = of_int \<lfloor>x\<rfloor> + r" by (simp add: r_def)
  consider "r < 1 / 2" | "1 / 2 < r" | "r = 1 / 2" by linarith
  then show ?thesis
  proof cases
    case 1
    then have "rne x = \<lfloor>x\<rfloor>" by (simp add: rne_def Let_def r_def)
    then show ?thesis using r 1 x by simp
  next
    case 2
    then have "rne x = \<lfloor>x\<rfloor> + 1" by (simp add: rne_def Let_def r_def)
    then show ?thesis using r 2 x by simp
  next
    case 3
    then have "rne x = \<lfloor>x\<rfloor> \<or> rne x = \<lfloor>x\<rfloor> + 1" by (simp add: rne_def Let_def r_def)
    then show ?thesis using 3 x by auto
  qed
qed

lemma double_error:
  assumes "0 < x"
  shows "\<bar>double x - x\<bar> \<le> x / 2 ^ 53"
proof -
  let ?s = "(2::rat) powi (binade x - 52)"
  have s: "0 < ?s" by (rule powi_pos)
  have "2 ^ 52 * ?s \<le> x"
    using binade_bounds(1) [OF assms] by (simp only: scale_52)
  then have b: "?s / 2 \<le> x / 2 ^ 53" by simp
  have "\<bar>of_int (rne (x / ?s)) - x / ?s\<bar> * ?s \<le> 1 / 2 * ?s"
    using rne_error [of "x / ?s"] s by (intro mult_right_mono) simp_all
  moreover have "\<bar>of_int (rne (x / ?s)) - x / ?s\<bar> * ?s = \<bar>of_int (rne (x / ?s)) * ?s - x\<bar>"
  proof -
    have "\<bar>of_int (rne (x / ?s)) - x / ?s\<bar> * ?s = \<bar>(of_int (rne (x / ?s)) - x / ?s) * ?s\<bar>"
      using s by (simp add: abs_mult)
    also have "(of_int (rne (x / ?s)) - x / ?s) * ?s = of_int (rne (x / ?s)) * ?s - x"
      using s by (simp add: left_diff_distrib)
    finally show ?thesis .
  qed
  ultimately have "\<bar>double x - x\<bar> \<le> ?s / 2"
    by (simp add: double_pos [OF assms])
  then show ?thesis using b by linarith
qed

lemma double_error0: "0 \<le> x \<Longrightarrow> \<bar>double x - x\<bar> \<le> x / 2 ^ 53"
  using double_error [of x] by (cases "x = 0") (simp_all add: double_def)

lemma abs_chain:
  fixes y d q e1 e2 :: rat
  assumes "\<bar>d - q\<bar> \<le> e2" "\<bar>y - d * 100\<bar> \<le> e1"
  shows "\<bar>y - q * 100\<bar> \<le> e1 + e2 * 100"
  using assms unfolding abs_le_iff by linarith

lemma product_error:
  assumes "0 \<le> q" "q \<le> 1"
  shows "\<bar>double (double q * 100) - q * 100\<bar> \<le> 1 / 2 ^ 45"
proof -
  have d: "0 \<le> double q" "double q \<le> 1"
    using assms double_nonneg [of q] double_mono [of q 1] by (simp_all add: double_1)
  have 1: "\<bar>double q - q\<bar> \<le> 1 / 2 ^ 53"
    using double_error0 [OF assms(1)] assms(2) by simp
  have "\<bar>double (double q * 100) - double q * 100\<bar> \<le> double q * 100 / 2 ^ 53"
    using d by (intro double_error0) simp
  then have 2: "\<bar>double (double q * 100) - double q * 100\<bar> \<le> 100 / 2 ^ 53"
    using d by simp
  have "\<bar>double (double q * 100) - q * 100\<bar> \<le> 100 / 2 ^ 53 + 1 / 2 ^ 53 * 100"
    using 1 2 by (rule abs_chain)
  also have "\<dots> \<le> 1 / 2 ^ 45" by simp
  finally show ?thesis .
qed

subsection \<open>The percentage\<close>

lemma percent_binary64:
  assumes "0 < t"
  shows "percent l t = binary64_percent l t"
proof (cases "l \<le> t")
  case True
  have n: "(0::rat) \<le> of_nat l / of_nat t" by simp
  have "(of_nat l :: rat) / of_nat t \<le> 1" using True assms by simp
  then have d1: "double (of_nat l / of_nat t) \<le> 1"
    using double_mono [OF n, of 1] by (simp add: double_1)
  have "0 \<le> double (of_nat l / of_nat t) * 100" "double (of_nat l / of_nat t) * 100 \<le> 100"
    using d1 double_nonneg [OF n] by simp_all
  then have "double (double (of_nat l / of_nat t) * 100) \<le> 100"
    using double_mono [of "double (of_nat l / of_nat t) * 100" 100] by (simp add: double_100)
  then have "Math_round (double (double (of_nat l / of_nat t) * 100)) \<le> 100"
    by (simp add: Math_round_def floor_le_iff)
  then show ?thesis using d1 by (simp add: percent_def binary64_percent_def)
next
  case False
  then have "(1::rat) \<le> of_nat l / of_nat t" using assms by simp
  then have d1: "1 \<le> double (of_nat l / of_nat t)"
    using double_mono [of 1 "of_nat l / of_nat t"] by (simp add: double_1)
  then have "double 100 \<le> double (double (of_nat l / of_nat t) * 100)"
    by (intro double_mono) simp_all
  then have "100 \<le> Math_round (double (double (of_nat l / of_nat t) * 100))"
    by (simp add: double_100 Math_round_def le_floor_iff)
  moreover have "Math_round (double (min 1 (double (of_nat l / of_nat t)) * 100)) = 100"
    using d1 by (simp add: min_absorb1 double_100 Math_round_100)
  ultimately show ?thesis by (simp add: percent_def binary64_percent_def)
qed

lemma percent_within:
  assumes "0 < t" "l \<le> t"
  shows "percent l t = Math_round (double (double (of_nat l / of_nat t) * 100))"
proof -
  have n: "(0::rat) \<le> of_nat l / of_nat t" by simp
  have "(of_nat l :: rat) / of_nat t \<le> 1" using assms by simp
  then have d1: "double (of_nat l / of_nat t) \<le> 1"
    using double_mono [OF n, of 1] by (simp add: double_1)
  have "0 \<le> double (of_nat l / of_nat t) * 100" "double (of_nat l / of_nat t) * 100 \<le> 100"
    using d1 double_nonneg [OF n] by simp_all
  then have "double (double (of_nat l / of_nat t) * 100) \<le> 100"
    using double_mono [of "double (of_nat l / of_nat t) * 100" 100] by (simp add: double_100)
  then have "Math_round (double (double (of_nat l / of_nat t) * 100)) \<le> 100"
    by (simp add: Math_round_def floor_le_iff)
  then show ?thesis by (simp add: percent_def)
qed

lemma percent_beyond:
  assumes "0 < t" "t < l"
  shows "percent l t = 100"
proof -
  have "(1::rat) \<le> of_nat l / of_nat t" using assms by simp
  then have d1: "1 \<le> double (of_nat l / of_nat t)"
    using double_mono [of 1 "of_nat l / of_nat t"] by (simp add: double_1)
  then have "double 100 \<le> double (double (of_nat l / of_nat t) * 100)"
    by (intro double_mono) simp_all
  then have "100 \<le> Math_round (double (double (of_nat l / of_nat t) * 100))"
    by (simp add: double_100 Math_round_def le_floor_iff)
  then show ?thesis by (simp add: percent_def)
qed

lemma floor_near:
  fixes x y e :: rat
  assumes "\<bar>y - x\<bar> \<le> e"
  shows "\<bar>of_int \<lfloor>y + 1 / 2\<rfloor> - x\<bar> \<le> 1 / 2 + e"
    and "e < 1 \<Longrightarrow> \<bar>\<lfloor>y + 1 / 2\<rfloor> - \<lfloor>x + 1 / 2\<rfloor>\<bar> \<le> 1"
    and "e \<le> frac (x + 1 / 2) \<Longrightarrow> frac (x + 1 / 2) < 1 - e \<Longrightarrow>
           \<lfloor>y + 1 / 2\<rfloor> = \<lfloor>x + 1 / 2\<rfloor>"
proof -
  have a: "y - x \<le> e" "x - y \<le> e" using assms unfolding abs_le_iff by simp_all
  have fy: "of_int \<lfloor>y + 1 / 2\<rfloor> \<le> y + 1 / 2" "y + 1 / 2 < of_int \<lfloor>y + 1 / 2\<rfloor> + 1"
    by linarith+
  have fx: "of_int \<lfloor>x + 1 / 2\<rfloor> \<le> x + 1 / 2" "x + 1 / 2 < of_int \<lfloor>x + 1 / 2\<rfloor> + 1"
    by linarith+
  show "\<bar>of_int \<lfloor>y + 1 / 2\<rfloor> - x\<bar> \<le> 1 / 2 + e"
    unfolding abs_le_iff using a fy by linarith
  show "\<bar>\<lfloor>y + 1 / 2\<rfloor> - \<lfloor>x + 1 / 2\<rfloor>\<bar> \<le> 1" if "e < 1"
  proof -
    have "(of_int \<lfloor>y + 1 / 2\<rfloor> :: rat) < of_int \<lfloor>x + 1 / 2\<rfloor> + 2"
         "(of_int \<lfloor>x + 1 / 2\<rfloor> :: rat) < of_int \<lfloor>y + 1 / 2\<rfloor> + 2"
      using a fy fx that by linarith+
    then have "(of_int \<lfloor>y + 1 / 2\<rfloor> :: rat) < of_int (\<lfloor>x + 1 / 2\<rfloor> + 2)"
         "(of_int \<lfloor>x + 1 / 2\<rfloor> :: rat) < of_int (\<lfloor>y + 1 / 2\<rfloor> + 2)"
      by simp_all
    then have "\<lfloor>y + 1 / 2\<rfloor> < \<lfloor>x + 1 / 2\<rfloor> + 2" "\<lfloor>x + 1 / 2\<rfloor> < \<lfloor>y + 1 / 2\<rfloor> + 2"
      by (simp_all only: of_int_less_iff)
    then show ?thesis by linarith
  qed
  show "\<lfloor>y + 1 / 2\<rfloor> = \<lfloor>x + 1 / 2\<rfloor>"
    if "e \<le> frac (x + 1 / 2)" "frac (x + 1 / 2) < 1 - e"
  proof (rule floor_unique)
    have f: "x + 1 / 2 = of_int \<lfloor>x + 1 / 2\<rfloor> + frac (x + 1 / 2)"
      by (simp add: frac_def)
    show "of_int \<lfloor>x + 1 / 2\<rfloor> \<le> y + 1 / 2" using a that f by linarith
    show "y + 1 / 2 < of_int \<lfloor>x + 1 / 2\<rfloor> + 1" using a that f by linarith
  qed
qed

lemma percent_exact:
  assumes t: "0 < t"
  shows "\<bar>percent l t - spec_percent l t\<bar> \<le> 1"
    and "l \<le> t \<Longrightarrow>
           \<bar>of_int (percent l t) - of_nat l / of_nat t * 100\<bar> \<le> (1 / 2 + 1 / 2 ^ 45 :: rat)"
    and "1 / 2 ^ 45 \<le> frac (of_nat l / of_nat t * 100 + 1 / 2 :: rat) \<Longrightarrow>
         frac (of_nat l / of_nat t * 100 + 1 / 2 :: rat) < 1 - 1 / 2 ^ 45 \<Longrightarrow>
           percent l t = spec_percent l t"
proof -
  let ?q = "of_nat l / of_nat t :: rat"
  let ?y = "double (double ?q * 100)"
  have beyond: "percent l t = 100 \<and> spec_percent l t = 100" if "t < l"
  proof -
    have "(1::rat) \<le> ?q" using that t by simp
    then have "min 1 ?q = 1" by simp
    then have "spec_percent l t = 100" by (simp add: spec_percent_def)
    then show ?thesis using percent_beyond [OF t that] by simp
  qed
  have within: "percent l t = \<lfloor>?y + 1 / 2\<rfloor> \<and> spec_percent l t = \<lfloor>?q * 100 + 1 / 2\<rfloor> \<and>
                \<bar>?y - ?q * 100\<bar> \<le> 1 / 2 ^ 45" if "l \<le> t"
  proof -
    have q: "0 \<le> ?q" "?q \<le> 1" using that t by simp_all
    then have "min 1 ?q = ?q" by simp
    then have "spec_percent l t = \<lfloor>?q * 100 + 1 / 2\<rfloor>" by (simp add: spec_percent_def round_def)
    then show ?thesis
      using percent_within [OF t that] product_error [OF q] by (simp add: Math_round_def)
  qed
  show "\<bar>percent l t - spec_percent l t\<bar> \<le> 1"
  proof (cases "l \<le> t")
    case True
    have "(1 / 2 ^ 45 :: rat) < 1" by simp
    then show ?thesis
      using within [OF True] floor_near(2) [of ?y "?q * 100" "1 / 2 ^ 45"] by simp
  next
    case False
    then show ?thesis using beyond by simp
  qed
  show "\<bar>of_int (percent l t) - ?q * 100\<bar> \<le> (1 / 2 + 1 / 2 ^ 45 :: rat)" if "l \<le> t"
    using within [OF that] floor_near(1) [of ?y "?q * 100" "1 / 2 ^ 45"] by simp
  show "percent l t = spec_percent l t"
    if "1 / 2 ^ 45 \<le> frac (?q * 100 + 1 / 2)" "frac (?q * 100 + 1 / 2) < 1 - 1 / 2 ^ 45"
  proof (cases "l \<le> t")
    case True
    show ?thesis
      using within [OF True] that floor_near(3) [of ?y "?q * 100" "1 / 2 ^ 45"] by simp
  next
    case False
    then show ?thesis using beyond by simp
  qed
qed

lemma percent_numeral:
  "percent (numeral a) (numeral b) =
     min 100 (Math_round (double (double (numeral a / numeral b) * 100)))"
  by (simp add: percent_def)

lemma binary64_percent_numeral:
  "binary64_percent (numeral a) (numeral b) =
     Math_round (double (min 1 (double (numeral a / numeral b)) * 100))"
  by (simp add: binary64_percent_def)

lemma percent_samples:
  "percent 250000 1000000 = 25" "percent 500000 1000000 = 50" "percent 1000000 1000000 = 100"
  by (simp_all only: percent_numeral, code_simp+)

lemma binary64_percent_samples:
  "string_of_int (binary64_percent 250000 1000000) = ''25''"
  "string_of_int (binary64_percent 500000 1000000) = ''50''"
  "string_of_int (binary64_percent 1000000 1000000) = ''100''"
  "string_of_int (binary64_percent 23 40) = ''57''"
  by (simp_all only: binary64_percent_numeral, code_simp+)

text \<open>
  The roundings are to the nearest: two of three bytes are 67 percent, and one of 200
  bytes is one percent, which rounding the quotient down would make zero.
\<close>

lemma binary64_percent_nearest:
  "binary64_percent 2 3 = 67" "binary64_percent 1 200 = 1" "binary64_percent 1 3 = 33"
  by (simp_all only: binary64_percent_numeral, code_simp+)

lemma spec_percent_numeral:
  "spec_percent (numeral a) (numeral b) = round (min 1 (numeral a / numeral b :: rat) * 100)"
  by (simp add: spec_percent_def)

lemma spec_percent_samples:
  "spec_percent 250000 1000000 = 25" "spec_percent 23 40 = 58" "spec_percent 29 200 = 15"
  by (simp_all only: spec_percent_numeral, code_simp+)

lemma string_of_int_samples:
  "string_of_int 25 = ''25''" "string_of_int 50 = ''50''" "string_of_int 100 = ''100''"
  by code_simp+

lemma progress_bytes [simp]:
  "progress_loaded (bytes l t) = l"
  "progress_total img (bytes l t) = (if t = 0 then fsize img else t)"
  by (simp_all add: bytes_def progress_loaded_def progress_total_def or_else_def)


text \<open>
  C6, amended. For every progress event whose total is positive (the \<open>total\<close> of the
  event when that is positive), the status published is \<open>Uploading... N%\<close> with \<open>N\<close>
  the value of \<open>round(min(1, loaded/total) * 100)\<close> as JavaScript evaluates it, the
  quotient and the product each rounded to the nearest binary64 number. \<open>N\<close> differs
  from the exact value of the formula by at most one, and is equal to it whenever
  \<open>loaded/total * 100\<close> is not within \<open>1 / 2 ^ 45\<close> of a rounding boundary; for
  \<open>loaded \<le> total\<close> it is within \<open>1 / 2 + 1 / 2 ^ 45\<close> of \<open>loaded/total * 100\<close>, and for
  \<open>total < loaded\<close> it is 100. For the file of 1 000 000 bytes with 250 000, 500 000 and
  1 000 000 bytes loaded the statuses are 25%, 50% and 100%.
\<close>

theorem published_percentage:
  assumes "0 < progress_total img prog"
  shows
    "(let l = progress_loaded prog; t = progress_total img prog
      in message (httpUploadProgress img prog st) =
           ''Uploading... '' @ string_of_int (binary64_percent l t) @ ''%'' \<and>
         \<bar>binary64_percent l t - spec_percent l t\<bar> \<le> 1 \<and>
         (1 / 2 ^ 45 \<le> frac (of_nat l / of_nat t * 100 + 1 / 2 :: rat) \<and>
          frac (of_nat l / of_nat t * 100 + 1 / 2 :: rat) < 1 - 1 / 2 ^ 45 \<longrightarrow>
            binary64_percent l t = spec_percent l t) \<and>
         (l \<le> t \<longrightarrow>
            \<bar>of_int (binary64_percent l t) - of_nat l / of_nat t * 100\<bar>
              \<le> (1 / 2 + 1 / 2 ^ 45 :: rat)) \<and>
         (t < l \<longrightarrow> binary64_percent l t = 100)) \<and>
     (\<forall>p n. prog = Some p \<and> total p = Some n \<and> 0 < n \<longrightarrow> progress_total img prog = n)"
proof -
  let ?l = "progress_loaded prog" and ?t = "progress_total img prog"
  note b = percent_binary64 [OF assms, of ?l, symmetric]
  have 1: "message (httpUploadProgress img prog st) =
             ''Uploading... '' @ string_of_int (binary64_percent ?l ?t) @ ''%''"
    using assms by (simp add: httpUploadProgress_def Let_def percent_binary64)
  have 2: "\<bar>binary64_percent ?l ?t - spec_percent ?l ?t\<bar> \<le> 1"
    unfolding b by (rule percent_exact(1) [OF assms])
  have 3: "binary64_percent ?l ?t = spec_percent ?l ?t"
    if "1 / 2 ^ 45 \<le> frac (of_nat ?l / of_nat ?t * 100 + 1 / 2 :: rat)"
       "frac (of_nat ?l / of_nat ?t * 100 + 1 / 2 :: rat) < 1 - 1 / 2 ^ 45"
    unfolding b using that by (rule percent_exact(3) [OF assms])
  have 4: "\<bar>of_int (binary64_percent ?l ?t) - of_nat ?l / of_nat ?t * 100\<bar>
             \<le> (1 / 2 + 1 / 2 ^ 45 :: rat)" if "?l \<le> ?t"
    unfolding b using that by (rule percent_exact(2) [OF assms])
  have 5: "binary64_percent ?l ?t = 100" if "?t < ?l"
    unfolding b using assms that by (rule percent_beyond)
  have 6: "progress_total img prog = n" if "prog = Some p" "total p = Some n" "0 < n" for p n
    using that by (simp add: progress_total_def or_else_def)
  show ?thesis
    unfolding Let_def using 1 2 3 4 5 6 by blast
qed

theorem published_percentage_witness:
  "0 < progress_total car (bytes 250000 1000000) \<and>
   message (httpUploadProgress car (bytes 250000 1000000) ready) = ''Uploading... 25%'' \<and>
   message (httpUploadProgress car (bytes 500000 1000000) ready) = ''Uploading... 50%'' \<and>
   message (httpUploadProgress car (bytes 1000000 1000000) ready) = ''Uploading... 100%'' \<and>
   binary64_percent 2 3 = 67 \<and> binary64_percent 1 200 = 1"
proof -
  have p: "0 < progress_total car (bytes 250000 1000000)"
          "0 < progress_total car (bytes 500000 1000000)"
          "0 < progress_total car (bytes 1000000 1000000)"
    by simp_all
  have "message (httpUploadProgress car (bytes 250000 1000000) ready) = ''Uploading... 25%''"
       "message (httpUploadProgress car (bytes 500000 1000000) ready) = ''Uploading... 50%''"
       "message (httpUploadProgress car (bytes 1000000 1000000) ready) = ''Uploading... 100%''"
    using published_percentage [OF p(1), of ready] published_percentage [OF p(2), of ready]
          published_percentage [OF p(3), of ready]
    by (simp_all add: binary64_percent_samples Let_def)
  then show ?thesis
    using p(1) binary64_percent_nearest(1,2) by blast
qed

text \<open>
  The claim as stated fails for 23 bytes of 40: the formula gives 58, the nearest
  integer to 57.5, but the quotient rounded to binary64 and multiplied by 100 is below
  57.5, and the status published is 57%. So it is for 29 bytes of 200: 14%, not 15.
\<close>

theorem published_percentage_counterexample:
  "0 < progress_total small (bytes 23 40) \<and>
   message (httpUploadProgress small (bytes 23 40) ready) = ''Uploading... 57%'' \<and>
   spec_percent 23 40 = 58 \<and>
   message (httpUploadProgress small (bytes 23 40) ready) \<noteq>
     ''Uploading... '' @ string_of_int (spec_percent 23 40) @ ''%''"
proof -
  have p: "0 < progress_total small (bytes 23 40)"
    by simp
  have m: "message (httpUploadProgress small (bytes 23 40) ready) = ''Uploading... 57%''"
    using p by (simp add: httpUploadProgress_def Let_def percent_binary64
        binary64_percent_samples)
  have "string_of_int 58 = ''58''"
    by code_simp
  then show ?thesis
    using p m by (simp add: spec_percent_samples)
qed

subsection \<open>The sequence of percentages\<close>

lemma statuses_eq:
  "statuses img events st =
     map (\<lambda>e. if 0 < progress_total img e
              then ''Uploading... '' @
                   string_of_int (percent (progress_loaded e) (progress_total img e)) @ ''%''
              else ''Uploading...'') events"
  by (induction events arbitrary: st) (simp_all add: httpUploadProgress_def Let_def)

lemma sorted_map_mono:
  assumes "sorted (map f xs)" and "\<And>a b. a \<le> b \<Longrightarrow> g a \<le> g b"
  shows "sorted (map (\<lambda>x. g (f x)) xs)"
  using assms by (induction xs) auto


text \<open>
  C5, amended. For every sequence of progress events, each percentage published lies
  between 0 and 100. The percentages are non-decreasing when the loaded byte counts
  are non-decreasing and every event has the same total; the listener keeps no earlier
  value and clamps against none. The status of an event is \<open>Uploading... N%\<close> when its
  total is positive and the indeterminate \<open>Uploading...\<close> otherwise, and the total is
  zero only when the \<open>total\<close> of the event is unknown or zero and the file is empty as
  well: the size of the file stands in for a missing total.
\<close>

theorem progress_percentages:
  "list_all (\<lambda>p. 0 \<le> p \<and> p \<le> 100) (percentages img events) \<and>
   (sorted (map progress_loaded events) \<and> list_all (\<lambda>e. progress_total img e = t) events \<longrightarrow>
      sorted (percentages img events)) \<and>
   message (httpUploadProgress img e st) =
     (if 0 < progress_total img e
      then ''Uploading... '' @
           string_of_int (percent (progress_loaded e) (progress_total img e)) @ ''%''
      else ''Uploading...'') \<and>
   (progress_total img e = 0 \<longleftrightarrow>
      or_else (case e of None \<Rightarrow> None | Some p \<Rightarrow> total p) 0 = 0 \<and> fsize img = 0)"
proof -
  have 1: "list_all (\<lambda>p. 0 \<le> p \<and> p \<le> 100) (percentages img events)"
    by (simp add: percentages_def list_all_iff percent_bounds)
  have 2: "sorted (percentages img events)"
    if s: "sorted (map progress_loaded events)"
    and t: "list_all (\<lambda>e. progress_total img e = t) events"
  proof (cases "0 < t")
    case True
    have f: "filter (\<lambda>e. 0 < progress_total img e) events = events"
      using t True by (simp add: list_all_iff)
    have m: "map (\<lambda>e. percent (progress_loaded e) (progress_total img e)) events =
             map (\<lambda>e. percent (progress_loaded e) t) events"
      using t by (intro map_cong [OF refl]) (simp add: list_all_iff)
    have "sorted (map (\<lambda>e. percent (progress_loaded e) t) events)"
      using s by (rule sorted_map_mono) (rule percent_mono)
    then show ?thesis unfolding percentages_def f m .
  next
    case False
    then have "filter (\<lambda>e. 0 < progress_total img e) events = []"
      using t by (simp add: list_all_iff)
    then show ?thesis by (simp add: percentages_def)
  qed
  have 3: "message (httpUploadProgress img e st) =
     (if 0 < progress_total img e
      then ''Uploading... '' @
           string_of_int (percent (progress_loaded e) (progress_total img e)) @ ''%''
      else ''Uploading...'')"
    by (simp add: httpUploadProgress_def Let_def)
  have 4: "progress_total img e = 0 \<longleftrightarrow>
      or_else (case e of None \<Rightarrow> None | Some p \<Rightarrow> total p) 0 = 0 \<and> fsize img = 0"
    by (auto simp: progress_total_def or_else_def split: option.splits)
  show ?thesis using 1 2 3 4 by blast
qed


theorem progress_percentages_witness:
  "sorted (map progress_loaded
     [bytes 250000 1000000, bytes 500000 1000000, bytes 1000000 1000000]) \<and>
   list_all (\<lambda>e. progress_total car e = 1000000)
     [bytes 250000 1000000, bytes 500000 1000000, bytes 1000000 1000000] \<and>
   percentages car [bytes 250000 1000000, bytes 500000 1000000, bytes 1000000 1000000] =
     [25, 50, 100] \<and>
   sorted (percentages car [bytes 250000 1000000, bytes 500000 1000000, bytes 1000000 1000000]) \<and>
   progress_total empty_file None = 0 \<and>
   message (httpUploadProgress empty_file None ready) = ''Uploading...''"
proof -
  let ?evs = "[bytes 250000 1000000, bytes 500000 1000000, bytes 1000000 1000000]"
  have s: "sorted (map progress_loaded ?evs)"
    by simp
  have t: "list_all (\<lambda>e. progress_total car e = 1000000) ?evs"
    by simp
  have p: "percentages car ?evs = [25, 50, 100]"
    by (simp add: percentages_def percent_samples)
  have z: "progress_total empty_file None = 0"
    by (simp add: progress_total_def or_else_def empty_file_def)
  have "sorted (percentages car ?evs)"
    using s t progress_percentages [of car ?evs 1000000] by blast
  moreover have "message (httpUploadProgress empty_file None ready) = ''Uploading...''"
    using z progress_percentages [of empty_file "[]" 0 None ready] by simp
  ultimately show ?thesis
    using s t p z by blast
qed

text \<open>
  The claim as stated fails for the file of 1 000 000 bytes: 500 000 bytes loaded and
  then 250 000 publish 50% and then 25%; and an event without a total, or with the
  total zero, publishes a percentage of the size of the file.
\<close>

theorem progress_percentages_counterexample:
  "statuses car [bytes 500000 1000000, bytes 250000 1000000] ready =
     [''Uploading... 50%'', ''Uploading... 25%''] \<and>
   percentages car [bytes 500000 1000000, bytes 250000 1000000] = [50, 25] \<and>
   \<not> sorted (percentages car [bytes 500000 1000000, bytes 250000 1000000]) \<and>
   total \<lparr>loaded = Some 250000, total = None\<rparr> = None \<and>
   message (httpUploadProgress car (Some \<lparr>loaded = Some 250000, total = None\<rparr>) ready) =
     ''Uploading... 25%'' \<and>
   message (httpUploadProgress car (bytes 250000 0) ready) = ''Uploading... 25%''"
proof -
  have a: "statuses car [bytes 500000 1000000, bytes 250000 1000000] ready =
             [''Uploading... 50%'', ''Uploading... 25%'']"
    by (simp add: statuses_eq percent_samples string_of_int_samples)
  have b: "percentages car [bytes 500000 1000000, bytes 250000 1000000] = [50, 25]"
    by (simp add: percentages_def percent_samples)
  have c: "message (httpUploadProgress car (Some \<lparr>loaded = Some 250000, total = None\<rparr>) ready) =
             ''Uploading... 25%''"
    by (simp add: httpUploadProgress_def progress_loaded_def progress_total_def or_else_def
          car_def percent_samples string_of_int_samples)
  have d: "message (httpUploadProgress car (bytes 250000 0) ready) = ''Uploading... 25%''"
    by (simp add: httpUploadProgress_def car_def percent_samples string_of_int_samples)
  show ?thesis
    using a c d by (simp add: b)
qed



end
